theory Spec2Isabelle
  imports Main "HOL-Library.Sublist" "HOL-Library.AList"
begin

section \<open>Values of the page: JSON data, objects, coercions\<close>

text \<open>
  The page (src/app.js) handles plain JavaScript data that goes through
  \<^verbatim>\<open>JSON.stringify\<close> and \<^verbatim>\<open>JSON.parse\<close>. A value is a JSON value with
  integer numbers; an object is a list of properties in insertion order; a property
  that is absent reads as \<^verbatim>\<open>undefined\<close>, here \<open>None\<close>.
\<close>

datatype json =
    JNull
  | JBool bool
  | JNum int
  | JStr string
  | JArr "json list"
  | JObj "(string \<times> json) list"

type_synonym jsobj = "(string \<times> json) list"

text \<open>\<^verbatim>\<open>obj.key\<close>: the value of the property, \<open>None\<close> for \<^verbatim>\<open>undefined\<close>.\<close>

definition get_prop :: "jsobj \<Rightarrow> string \<Rightarrow> json option" where
  "get_prop obj k = map_of obj k"

text \<open>
  Object spread \<^verbatim>\<open>{ ...base, ...props }\<close>: each property of \<open>props\<close>, in order,
  replaces the property of the same name where it stands or is added at the end.
\<close>

definition spread :: "('k \<times> 'v) list \<Rightarrow> ('k \<times> 'v) list \<Rightarrow> ('k \<times> 'v) list" where
  "spread base props = fold (\<lambda>(k, v). AList.update k v) props base"

text \<open>Truthiness, as tested by \<^verbatim>\<open>if (x)\<close>, \<^verbatim>\<open>x || y\<close> and \<^verbatim>\<open>x && y\<close>.\<close>

fun truthy :: "json option \<Rightarrow> bool" where
  "truthy None = False"
| "truthy (Some JNull) = False"
| "truthy (Some (JBool b)) = b"
| "truthy (Some (JNum n)) = (n \<noteq> 0)"
| "truthy (Some (JStr s)) = (s \<noteq> [])"
| "truthy (Some (JArr xs)) = True"
| "truthy (Some (JObj ps)) = True"

text \<open>Decimal digits of a number, as a template literal prints them.\<close>

fun show_nat :: "nat \<Rightarrow> string" where
  "show_nat n =
     (if n < 10 then [char_of (48 + n)]
      else show_nat (n div 10) @ [char_of (48 + n mod 10)])"

declare show_nat.simps [simp del]

definition show_int :: "int \<Rightarrow> string" where
  "show_int i = (if i < 0 then CHR ''-'' # show_nat (nat (- i)) else show_nat (nat i))"

definition join_comma :: "string list \<Rightarrow> string" where
  "join_comma ss = (case ss of [] \<Rightarrow> [] | s # rest \<Rightarrow> s @ concat (map (\<lambda>t. CHR '','' # t) rest))"

text \<open>
  String coercion of a value (\<^verbatim>\<open>String(x)\<close>, a template literal's hole): an array
  joins its elements with commas, printing \<^verbatim>\<open>null\<close> as nothing, and an object
  prints as \<^verbatim>\<open>[object Object]\<close>.
\<close>

fun js_string :: "json \<Rightarrow> string"
  and js_element :: "json \<Rightarrow> string" where
  "js_string JNull = ''null''"
| "js_string (JBool b) = (if b then ''true'' else ''false'')"
| "js_string (JNum n) = show_int n"
| "js_string (JStr s) = s"
| "js_string (JArr xs) = join_comma (map js_element xs)"
| "js_string (JObj ps) = ''[object Object]''"
| "js_element v = (if v = JNull then [] else js_string v)"

definition template :: "json option \<Rightarrow> string" where
  "template v = (case v of None \<Rightarrow> ''undefined'' | Some x \<Rightarrow> js_string x)"

section \<open>The page's state and its network\<close>

text \<open>
  \<^verbatim>\<open>localStorage\<close> under its three keys. The queue is kept as the array that
  \<^verbatim>\<open>JSON.parse\<close> reads back from the stored text; \<open>None\<close> is a key that is not
  set. \<open>writes\<close> lists the keys of the \<^verbatim>\<open>setItem\<close> and \<^verbatim>\<open>removeItem\<close> calls so
  far, oldest first.
\<close>

record storage =
  authToken :: "string option"
  currentUser :: "json option"
  syncQueue :: "jsobj list option"
  writes :: "string list"

datatype toast =
    ToastConnectionError
  | ToastActionSaved
  | ToastSyncing
  | ToastSyncCompleted
  | ToastSyncPartial

text \<open>
  The application object with what it touches of the browser: the storage, the user
  held in memory, the address of the window, the notifications shown (message and
  duration in milliseconds) and the background-sync tags asked of the service worker.
\<close>

record page =
  store :: storage
  user :: "json option"
  location :: string
  toasts :: "(toast \<times> nat) list"
  can_sync :: bool
  sync_tags :: "string list"

datatype payload = NoBody | Raw string | JsonText json

record request =
  req_url :: string
  req_method :: string
  req_headers :: "(string \<times> string) list"
  req_body :: payload

text \<open>
  A response as the page reads it: the status, the content-type header if any, the
  body as text, and the body as \<^verbatim>\<open>response.json()\<close> parses it (\<open>None\<close> when the
  text is not JSON and the parse throws).
\<close>

record response =
  status :: nat
  content_type :: "string option"
  body_text :: string
  body_json :: "json option"

datatype 'r outcome = Responded 'r | Unreachable

text \<open>\<^verbatim>\<open>response.ok\<close>: the status is in the range 200 to 299.\<close>

definition ok :: "response \<Rightarrow> bool" where
  "ok r = (200 \<le> status r \<and> status r \<le> 299)"

text \<open>
  The network is a parameter: it answers a request in a state of the world and moves
  the world on. \<open>do_fetch\<close> is one call of \<^verbatim>\<open>fetch\<close>; it also adds the request
  to the list of the requests handed to the network so far, so that a run that leaves
  the list as it was has sent nothing.
\<close>

type_synonym ('q, 'r, 'w) network = "'q \<Rightarrow> 'w \<Rightarrow> 'r outcome \<times> 'w"

definition do_fetch ::
  "('q, 'r, 'w) network \<Rightarrow> 'q \<Rightarrow> 'w \<times> 'q list \<Rightarrow> 'r outcome \<times> ('w \<times> 'q list)" where
  "do_fetch net q ws = (case net q (fst ws) of (out, w') \<Rightarrow> (out, (w', snd ws @ [q])))"

definition apiBaseUrl :: string where
  "apiBaseUrl = ''https://ciudad-conectada.onrender.com/api''"

definition getItem_authToken :: "page \<Rightarrow> string option" where
  "getItem_authToken p = authToken (store p)"

text \<open>\<^verbatim>\<open>JSON.parse(localStorage.getItem("syncQueue") || "[]")\<close>.\<close>

definition read_queue :: "page \<Rightarrow> jsobj list" where
  "read_queue p = (case syncQueue (store p) of None \<Rightarrow> [] | Some q \<Rightarrow> q)"

definition setItem_syncQueue :: "jsobj list \<Rightarrow> page \<Rightarrow> page" where
  "setItem_syncQueue q p =
     p\<lparr>store := (store p)\<lparr>syncQueue := Some q, writes := writes (store p) @ [''syncQueue'']\<rparr>\<rparr>"

definition showMessage :: "toast \<Rightarrow> nat \<Rightarrow> page \<Rightarrow> page" where
  "showMessage t duration p = p\<lparr>toasts := toasts p @ [(t, duration)]\<rparr>"

text \<open>A token that is set and not the empty string passes \<^verbatim>\<open>if (token)\<close>.\<close>

definition token_set :: "string option \<Rightarrow> bool" where
  "token_set t = (case t of None \<Rightarrow> False | Some s \<Rightarrow> s \<noteq> [])"

section \<open>The sync queue (src/app.js, enqueueSyncAction and processSyncQueue)\<close>

text \<open>
  The registration of the background sync is asked for when the browser has a service
  worker and a sync manager (\<open>can_sync\<close>); a registration that fails is ignored.
\<close>

definition registerBackgroundSync :: "page \<Rightarrow> page" where
  "registerBackgroundSync p =
     (if can_sync p then p\<lparr>sync_tags := sync_tags p @ [''sync-report-actions'']\<rparr> else p)"

text \<open>
  \<open>now\<close> is the reading of \<^verbatim>\<open>Date.now()\<close> at the call, in milliseconds. The
  record is \<^verbatim>\<open>{ id: Date.now(), ...action }\<close>: the properties of the action come
  after the id and replace it when the action has an id of its own.
\<close>

definition enqueueSyncAction :: "int \<Rightarrow> jsobj \<Rightarrow> page \<Rightarrow> page" where
  "enqueueSyncAction now action p =
     (let queue = read_queue p;
          queue = queue @ [spread [(''id'', JNum now)] action];
          p = setItem_syncQueue queue p;
          p = showMessage ToastActionSaved 3000 p
      in registerBackgroundSync p)"

text \<open>The request that the drain builds for one queued action.\<close>

definition replay_request :: "page \<Rightarrow> jsobj \<Rightarrow> request" where
  "replay_request p action =
     \<lparr> req_url = apiBaseUrl @ template (get_prop action ''url''),
       req_method =
         (if truthy (get_prop action ''method'') then template (get_prop action ''method'')
          else ''POST''),
       req_headers =
         [(''Content-Type'', ''application/json'')] @
         (if token_set (getItem_authToken p)
          then [(''Authorization'', ''Bearer '' @ the (getItem_authToken p))] else []),
       req_body =
         (if truthy (get_prop action ''body'') then JsonText (the (get_prop action ''body''))
          else NoBody) \<rparr>"

text \<open>
  The body of the \<^verbatim>\<open>try\<close> block after the request is built: a rejected
  \<^verbatim>\<open>fetch\<close> throws, and so does a response that is not ok, with the id of the
  action in the message.
\<close>

datatype sync_error = FetchRejected | SyncFailed string

definition attempt :: "jsobj \<Rightarrow> response outcome \<Rightarrow> sync_error + unit" where
  "attempt action out =
     (case out of
        Unreachable \<Rightarrow> Inl FetchRejected
      | Responded r \<Rightarrow>
          if \<not> ok r then Inl (SyncFailed (template (get_prop action ''id''))) else Inr ())"

text \<open>
  The \<^verbatim>\<open>for\<close> loop over the queue: \<open>failed\<close> is \<^verbatim>\<open>failedActions\<close>, and the
  \<^verbatim>\<open>catch\<close> block pushes the action onto it whatever was thrown.
\<close>

fun replay_loop ::
  "(request, response, 'w) network \<Rightarrow> page \<Rightarrow> jsobj list \<Rightarrow> jsobj list \<Rightarrow>
   'w \<times> request list \<Rightarrow> jsobj list \<times> ('w \<times> request list)" where
  "replay_loop net p [] failed ws = (failed, ws)"
| "replay_loop net p (action # rest) failed ws =
     (case do_fetch net (replay_request p action) ws of
        (out, ws') \<Rightarrow>
          (case attempt action out of
             Inl e \<Rightarrow> replay_loop net p rest (failed @ [action]) ws'
           | Inr u \<Rightarrow> replay_loop net p rest failed ws'))"

text \<open>
  The end of the drain, after the loop: the queue is written with the actions that
  failed, and one of two notifications is shown.
\<close>

definition write_back :: "jsobj list \<Rightarrow> page \<Rightarrow> page" where
  "write_back failedActions p =
     (let p2 = setItem_syncQueue failedActions p in
      if length failedActions = 0 then showMessage ToastSyncCompleted 3000 p2
      else showMessage ToastSyncPartial 4000 p2)"

definition processSyncQueue ::
  "(request, response, 'w) network \<Rightarrow> page \<Rightarrow> 'w \<times> request list \<Rightarrow>
   page \<times> ('w \<times> request list)" where
  "processSyncQueue net p ws =
     (let queue = read_queue p in
      if length queue = 0 then (p, ws)
      else
        let p1 = showMessage ToastSyncing 3000 p in
        (case replay_loop net p1 queue [] ws of
           (failedActions, ws') \<Rightarrow> (write_back failedActions p1, ws')))"

text \<open>
  The same drain, one step at a time, so that the states between its start and its
  return can be looked at: at the entry, in the loop with the actions still to replay
  and \<^verbatim>\<open>failedActions\<close> so far, and returned. One step of the loop is one
  iteration; the step that leaves the loop is the end of the drain, \<open>write_back\<close>.
\<close>

datatype drain_pc = AtEntry | InLoop "jsobj list" "jsobj list" | Returned

definition drain_step ::
  "(request, response, 'w) network \<Rightarrow> drain_pc \<times> page \<times> ('w \<times> request list) \<Rightarrow>
   drain_pc \<times> page \<times> ('w \<times> request list)" where
  "drain_step net s =
     (case s of (pc, p, ws) \<Rightarrow>
        (case pc of
           AtEntry \<Rightarrow>
             (let queue = read_queue p in
              if length queue = 0 then (Returned, p, ws)
              else (InLoop queue [], showMessage ToastSyncing 3000 p, ws))
         | InLoop [] failedActions \<Rightarrow> (Returned, write_back failedActions p, ws)
         | InLoop (action # rest) failedActions \<Rightarrow>
             (case do_fetch net (replay_request p action) ws of
                (out, ws') \<Rightarrow>
                  (case attempt action out of
                     Inl e \<Rightarrow> (InLoop rest (failedActions @ [action]), p, ws')
                   | Inr u \<Rightarrow> (InLoop rest failedActions, p, ws')))
         | Returned \<Rightarrow> (Returned, p, ws)))"

fun drain_run ::
  "(request, response, 'w) network \<Rightarrow> nat \<Rightarrow> drain_pc \<times> page \<times> ('w \<times> request list) \<Rightarrow>
   drain_pc \<times> page \<times> ('w \<times> request list)" where
  "drain_run net 0 s = s"
| "drain_run net (Suc n) s = drain_run net n (drain_step net s)"

text \<open>
  What each queued action received, in the order of the replays, and the failure of a
  replay as the specification words it: the response is not ok, or no response came.
\<close>

fun replay_trace ::
  "(request, response, 'w) network \<Rightarrow> page \<Rightarrow> jsobj list \<Rightarrow> 'w \<times> request list \<Rightarrow>
   (jsobj \<times> response outcome) list" where
  "replay_trace net p [] ws = []"
| "replay_trace net p (action # rest) ws =
     (case do_fetch net (replay_request p action) ws of
        (out, ws') \<Rightarrow> (action, out) # replay_trace net p rest ws')"

definition replay_failed :: "response outcome \<Rightarrow> bool" where
  "replay_failed out = (case out of Unreachable \<Rightarrow> True | Responded r \<Rightarrow> \<not> ok r)"

text \<open>A replay succeeds when a response came and it is ok.\<close>

definition succeeded :: "response outcome \<Rightarrow> bool" where
  "succeeded out = (case out of Unreachable \<Rightarrow> False | Responded r \<Rightarrow> ok r)"

text \<open>A sequence of enqueue calls, each with the reading of the clock at the call.\<close>

definition enqueue_all :: "(int \<times> jsobj) list \<Rightarrow> page \<Rightarrow> page" where
  "enqueue_all calls p = fold (\<lambda>(now, action). enqueueSyncAction now action) calls p"

section \<open>The API client (src/app.js, logout and apiCall)\<close>

definition removeItem_authToken :: "page \<Rightarrow> page" where
  "removeItem_authToken p =
     p\<lparr>store := (store p)\<lparr>authToken := None, writes := writes (store p) @ [''authToken'']\<rparr>\<rparr>"

definition removeItem_currentUser :: "page \<Rightarrow> page" where
  "removeItem_currentUser p =
     p\<lparr>store := (store p)\<lparr>currentUser := None, writes := writes (store p) @ [''currentUser'']\<rparr>\<rparr>"

text \<open>\<open>user = None\<close> is \<^verbatim>\<open>this.currentUser = null\<close>.\<close>

definition logout :: "page \<Rightarrow> page" where
  "logout p =
     (let p = removeItem_authToken p;
          p = removeItem_currentUser p;
          p = p\<lparr>user := None\<rparr>
      in p\<lparr>location := ''Login.html''\<rparr>)"

text \<open>
  The options of a call; \<open>None\<close> is a key that the caller did not give. A body is any
  value, a string among them.
\<close>

record options =
  opt_method :: "string option"
  opt_headers :: "(string \<times> string) list option"
  opt_body :: "json option"

text \<open>
  The \<^verbatim>\<open>config\<close> literal. Its \<^verbatim>\<open>headers\<close> property merges the two defaults with
  \<^verbatim>\<open>options.headers\<close>; then \<^verbatim>\<open>...options\<close> is spread over the whole literal, so
  every key that the options have, \<^verbatim>\<open>headers\<close> included, replaces the property
  written before it.
\<close>

definition merged_headers :: "string option \<Rightarrow> options \<Rightarrow> (string \<times> string) list" where
  "merged_headers token opts =
     spread
       (spread [(''Content-Type'', ''application/json'')]
          (if token_set token then [(''Authorization'', ''Bearer '' @ the token)] else []))
       (case opt_headers opts of None \<Rightarrow> [] | Some h \<Rightarrow> h)"

text \<open>
  \<^verbatim>\<open>if (config.body && typeof config.body !== "string") config.body = JSON.stringify(config.body)\<close>:
  a string goes out as it is, a truthy value as its JSON text; what is left is
  \<^verbatim>\<open>null\<close>, sent as no body, and \<^verbatim>\<open>false\<close> and \<^verbatim>\<open>0\<close>, which
  \<^verbatim>\<open>fetch\<close> coerces to a string.
\<close>

definition config_body :: "json option \<Rightarrow> payload" where
  "config_body b =
     (case b of
        None \<Rightarrow> NoBody
      | Some (JStr s) \<Rightarrow> Raw s
      | Some v \<Rightarrow>
          if truthy (Some v) then JsonText v
          else if v = JNull then NoBody else Raw (js_string v))"

definition apiCall_config :: "page \<Rightarrow> string \<Rightarrow> options \<Rightarrow> request" where
  "apiCall_config p endpoint opts =
     (let token = getItem_authToken p;
          url = apiBaseUrl @ endpoint
      in \<lparr> req_url = url,
           req_method = (case opt_method opts of None \<Rightarrow> ''GET'' | Some m \<Rightarrow> m),
           req_headers =
             (case opt_headers opts of None \<Rightarrow> merged_headers token opts | Some h \<Rightarrow> h),
           req_body = config_body (opt_body opts) \<rparr>)"

datatype js_error = FetchTypeError | Error string | JsonSyntaxError

datatype api_value = Parsed json | PlainText string

text \<open>
  The \<^verbatim>\<open>catch\<close> block of \<^verbatim>\<open>apiCall\<close>: it shows the notification and throws the
  error again.
\<close>

definition apiCall_catch ::
  "js_error \<Rightarrow> page \<Rightarrow> 'ws \<Rightarrow> (js_error + api_value) \<times> page \<times> 'ws" where
  "apiCall_catch e p ws = (Inl e, showMessage ToastConnectionError 5000 p, ws)"

definition apiCall ::
  "(request, response, 'w) network \<Rightarrow> string \<Rightarrow> options \<Rightarrow> page \<Rightarrow> 'w \<times> request list \<Rightarrow>
   (js_error + api_value) \<times> page \<times> ('w \<times> request list)" where
  "apiCall net endpoint opts p ws =
     (case do_fetch net (apiCall_config p endpoint opts) ws of
        (Unreachable, ws') \<Rightarrow> apiCall_catch FetchTypeError p ws'
      | (Responded r, ws') \<Rightarrow>
          if \<not> ok r then
            (let p = (if status r = 401 then logout p else p);
                 errorText = body_text r
             in apiCall_catch
                  (Error (''Error en la API: '' @ show_nat (status r) @ '' '' @ errorText)) p ws')
          else
            (let contentType = (case content_type r of None \<Rightarrow> [] | Some c \<Rightarrow> c) in
             if sublist ''application/json'' contentType then
               (case body_json r of
                  None \<Rightarrow> apiCall_catch JsonSyntaxError p ws'
                | Some v \<Rightarrow> (Inr (Parsed v), p, ws'))
             else (Inr (PlainText (body_text r)), p, ws')))"

section \<open>The service worker (second revision in src/unnamed/part_001)\<close>

text \<open>
  A request as the worker sees it, with the address already parsed by
  \<^verbatim>\<open>new URL(request.url)\<close>, and a response with its body either as text or as the
  \<^verbatim>\<open>JSON.stringify\<close> of a value.
\<close>

record sw_request =
  rq_method :: string
  rq_href :: string
  rq_pathname :: string

datatype sw_body = BodyText string | BodyJson json

record sw_response =
  rs_status :: nat
  rs_headers :: "(string \<times> string) list"
  rs_body :: sw_body

definition rs_ok :: "sw_response \<Rightarrow> bool" where
  "rs_ok r = (200 \<le> rs_status r \<and> rs_status r \<le> 299)"

text \<open>
  A cache maps the identity of a request, method and address, to the response stored
  for it. The cache storage lists the named caches in the order of their creation.
\<close>

type_synonym cache_key = "string \<times> string"
type_synonym cache = "(cache_key \<times> sw_response) list"
type_synonym cache_storage = "(string \<times> cache) list"

definition CACHE_NAME :: string where
  "CACHE_NAME = ''cc-cache-v5''"

definition API_CACHE :: string where
  "API_CACHE = ''cc-api-cache-v5''"

definition STATIC_ASSETS :: "string list" where
  "STATIC_ASSETS =
     [''/'',
      ''/Home.html'',
      ''/DetalleReporte.html'',
      ''/Perfil.html'',
      ''/Notificaciones.html'',
      ''/Login.html'',
      ''/RegistrarUsuario.html'',
      ''/app.css'',
      ''/app.js'',
      ''/icons/icono_144x144.png'',
      ''https://fonts.googleapis.com/css2?family=Public+Sans:wght@400;500;600;700;800;900&display=swap'',
      ''https://fonts.googleapis.com/css2?family=Material+Symbols+Outlined'']"

definition API_BASE :: string where
  "API_BASE = ''https://ciudad-conectada.onrender.com/api''"

definition key_of_request :: "sw_request \<Rightarrow> cache_key" where
  "key_of_request r = (rq_method r, rq_href r)"

text \<open>A lookup by an address alone is a lookup for a GET request to it.\<close>

definition key_of_url :: "string \<Rightarrow> cache_key" where
  "key_of_url u = (''GET'', u)"

definition cache_match :: "cache \<Rightarrow> cache_key \<Rightarrow> sw_response option" where
  "cache_match c k = map_of c k"

text \<open>
  \<^verbatim>\<open>cache.put\<close> is the browser's. It rejects with a \<^verbatim>\<open>TypeError\<close>, and stores
  nothing, when the address of the request is not an http or https one, when the
  method of the request is not GET, when the status of the response is 206, and when
  a \<^verbatim>\<open>Vary\<close> header of the response has the field value \<^verbatim>\<open>*\<close>. The name of a
  header is compared without regard to case, and the field values of a header are its
  parts between commas, without the blanks around them.
\<close>

definition ascii_lower :: "char \<Rightarrow> char" where
  "ascii_lower c =
     (let n = (of_char c :: nat) in if 65 \<le> n \<and> n \<le> 90 then char_of (n + 32) else c)"

fun split_commas :: "string \<Rightarrow> string list" where
  "split_commas [] = [[]]"
| "split_commas (c # cs) =
     (if c = CHR '','' then [] # split_commas cs
      else (case split_commas cs of [] \<Rightarrow> [[c]] | x # xs \<Rightarrow> (c # x) # xs))"

definition is_blank :: "char \<Rightarrow> bool" where
  "is_blank c = (c = CHR '' '' \<or> c = CHR 0x09)"

definition trim :: "string \<Rightarrow> string" where
  "trim s = rev (dropWhile is_blank (rev (dropWhile is_blank s)))"

definition vary_star :: "sw_response \<Rightarrow> bool" where
  "vary_star r =
     list_ex (\<lambda>(name, v). map ascii_lower name = ''vary'' \<and>
                          list_ex (\<lambda>f. trim f = ''*'') (split_commas v))
       (rs_headers r)"

definition http_scheme :: "string \<Rightarrow> bool" where
  "http_scheme href = (prefix ''http:'' href \<or> prefix ''https:'' href)"

definition put_rejects :: "sw_request \<Rightarrow> sw_response \<Rightarrow> bool" where
  "put_rejects request r =
     (\<not> http_scheme (rq_href request) \<or> rq_method request \<noteq> ''GET'' \<or>
      rs_status r = 206 \<or> vary_star r)"

datatype put_error = PutTypeError

definition cache_put :: "sw_request \<Rightarrow> sw_response \<Rightarrow> cache \<Rightarrow> put_error + cache" where
  "cache_put request r c =
     (if put_rejects request r then Inl PutTypeError
      else Inr (AList.update (key_of_request request) r c))"

text \<open>\<^verbatim>\<open>caches.match\<close> asks every cache in turn and answers with the first match.\<close>

fun caches_match :: "cache_storage \<Rightarrow> cache_key \<Rightarrow> sw_response option" where
  "caches_match [] k = None"
| "caches_match ((name, c) # cs) k =
     (case cache_match c k of Some r \<Rightarrow> Some r | None \<Rightarrow> caches_match cs k)"

definition caches_keys :: "cache_storage \<Rightarrow> string list" where
  "caches_keys cs = map fst cs"

definition caches_delete :: "string \<Rightarrow> cache_storage \<Rightarrow> cache_storage" where
  "caches_delete name cs = filter (\<lambda>(n, c). n \<noteq> name) cs"

text \<open>\<^verbatim>\<open>caches.open\<close> creates the cache when there is none of that name.\<close>

definition caches_open :: "string \<Rightarrow> cache_storage \<Rightarrow> cache_storage" where
  "caches_open name cs = (case map_of cs name of None \<Rightarrow> cs @ [(name, [])] | Some c \<Rightarrow> cs)"

text \<open>
  A put into the cache of a given name whose promise is neither awaited nor caught, as
  in \<open>apiNetworkThenCache\<close>: a rejection is lost and the cache stays as it was.
\<close>

definition put_in :: "string \<Rightarrow> sw_request \<Rightarrow> sw_response \<Rightarrow> cache_storage \<Rightarrow> cache_storage" where
  "put_in name request r cs =
     AList.map_entry name
       (\<lambda>c. case cache_put request r c of Inl e \<Rightarrow> c | Inr c' \<Rightarrow> c') cs"

record worker =
  caches :: cache_storage
  claimed :: bool

text \<open>The \<^verbatim>\<open>activate\<close> handler: the old caches go, then the clients are claimed.\<close>

definition activate :: "worker \<Rightarrow> worker" where
  "activate sw =
     (let keys = caches_keys (caches sw);
          old = filter (\<lambda>key. key \<noteq> CACHE_NAME \<and> key \<noteq> API_CACHE) keys
      in \<lparr> caches = fold caches_delete old (caches sw), claimed = True \<rparr>)"

definition offline_response :: sw_response where
  "offline_response =
     \<lparr> rs_status = 200,
       rs_headers = [(''Content-Type'', ''application/json'')],
       rs_body = BodyJson (JObj
         [(''ok'', JBool True),
          (''offline'', JBool True),
          (''message'', JStr ''Datos cargados offline''),
          (''data'', JArr [])]) \<rparr>"

definition apiNetworkThenCache ::
  "(sw_request, sw_response, 'w) network \<Rightarrow> cache_storage \<Rightarrow> 'w \<times> sw_request list \<Rightarrow>
   sw_request \<Rightarrow> sw_response \<times> cache_storage \<times> ('w \<times> sw_request list)" where
  "apiNetworkThenCache net cs ws request =
     (case do_fetch net request ws of
        (Responded networkResponse, ws') \<Rightarrow>
          if rs_ok networkResponse then
            (networkResponse,
             put_in API_CACHE request networkResponse (caches_open API_CACHE cs),
             ws')
          else (networkResponse, cs, ws')
      | (Unreachable, ws') \<Rightarrow>
          (case caches_match cs (key_of_request request) of
             Some cached \<Rightarrow> (cached, cs, ws')
           | None \<Rightarrow> (offline_response, cs, ws')))"

text \<open>
  The \<^verbatim>\<open>fetch\<close> handler. The answer \<open>None\<close> is a request that fails: the promise
  given to \<^verbatim>\<open>respondWith\<close> rejects or resolves to no response.
\<close>

definition fetch_handler ::
  "(sw_request, sw_response, 'w) network \<Rightarrow> cache_storage \<Rightarrow> 'w \<times> sw_request list \<Rightarrow>
   sw_request \<Rightarrow> sw_response option \<times> cache_storage \<times> ('w \<times> sw_request list)" where
  "fetch_handler net cs ws request =
     (if rq_pathname request \<in> set STATIC_ASSETS then
        (case caches_match cs (key_of_url (rq_pathname request)) of
           Some res \<Rightarrow> (Some res, cs, ws)
         | None \<Rightarrow>
             (case do_fetch net request ws of
                (Responded res, ws') \<Rightarrow> (Some res, cs, ws')
              | (Unreachable, ws') \<Rightarrow> (None, cs, ws')))
      else if prefix API_BASE (rq_href request) then
        (case apiNetworkThenCache net cs ws request of
           (res, cs', ws') \<Rightarrow> (Some res, cs', ws'))
      else
        (case do_fetch net request ws of
           (Responded res, ws') \<Rightarrow> (Some res, cs, ws')
         | (Unreachable, ws') \<Rightarrow> (caches_match cs (key_of_request request), cs, ws')))"

text \<open>
  Three notions for the properties of the worker: the response that the cache of a
  given name holds for a request, a storage in which every cached response is ok, and
  a storage in which no cache but the one of a given name has a match for a request.
\<close>

definition stored :: "cache_storage \<Rightarrow> string \<Rightarrow> cache_key \<Rightarrow> sw_response option" where
  "stored cs name k = (case map_of cs name of None \<Rightarrow> None | Some c \<Rightarrow> cache_match c k)"

definition only_ok_cached :: "cache_storage \<Rightarrow> bool" where
  "only_ok_cached cs = list_all (\<lambda>(n, c). list_all (\<lambda>(k, r). rs_ok r) c) cs"


section \<open>Example data\<close>

text \<open>
  The action that the status button queues when the page is offline, a second one of
  the same kind, a signed-in page, a response of a given status, and a network that
  answers from a script: the world is the list of the answers still to come, and an
  exhausted script is an unreachable network.
\<close>

definition status_action :: jsobj where
  "status_action =
     [(''url'', JStr ''/Reports/42/estado''),
      (''method'', JStr ''PUT''),
      (''body'', JObj [(''estado'', JStr ''Resuelto'')])]"

definition progress_action :: jsobj where
  "progress_action =
     [(''url'', JStr ''/Reports/7/estado''),
      (''method'', JStr ''PUT''),
      (''body'', JObj [(''estado'', JStr ''En Progreso'')])]"

definition reply :: "nat \<Rightarrow> response" where
  "reply n = \<lparr> status = n, content_type = Some ''application/json'',
               body_text = ''{}'', body_json = Some (JObj []) \<rparr>"

definition scripted :: "('q, 'r, 'r outcome list) network" where
  "scripted q w = (case w of [] \<Rightarrow> (Unreachable, []) | out # rest \<Rightarrow> (out, rest))"

definition signed_in :: page where
  "signed_in =
     \<lparr> store = \<lparr> authToken = Some ''abc123'',
                 currentUser = Some (JObj [(''name'', JStr ''Ana'')]),
                 syncQueue = None, writes = [] \<rparr>,
       user = Some (JObj [(''name'', JStr ''Ana'')]),
       location = ''DetalleReporte.html?id=42'',
       toasts = [], can_sync = True, sync_tags = [] \<rparr>"

definition three_queued :: page where
  "three_queued =
     enqueueSyncAction 1700000000300 status_action
       (enqueueSyncAction 1700000000200 progress_action
         (enqueueSyncAction 1700000000100 status_action signed_in))"

text \<open>
  Options with a header of the caller's, and none; a response that refuses the token;
  two requests as the worker sees them, and cache storages before and after an
  activation.
\<close>

definition extra_header_options :: options where
  "extra_header_options =
     \<lparr> opt_method = None, opt_headers = Some [(''Accept'', ''application/json'')],
       opt_body = None \<rparr>"

definition unauthorized :: response where
  "unauthorized = \<lparr> status = 401, content_type = Some ''text/plain'',
                     body_text = ''Token expirado'', body_json = None \<rparr>"

definition no_options :: options where
  "no_options = \<lparr> opt_method = None, opt_headers = None, opt_body = None \<rparr>"

definition reports_request :: sw_request where
  "reports_request =
     \<lparr> rq_method = ''GET'',
       rq_href = ''https://ciudad-conectada.onrender.com/api/Reports'',
       rq_pathname = ''/api/Reports'' \<rparr>"


definition page_response :: "nat \<Rightarrow> string \<Rightarrow> sw_response" where
  "page_response n text =
     \<lparr> rs_status = n, rs_headers = [(''Content-Type'', ''text/html'')],
       rs_body = BodyText text \<rparr>"

definition old_and_new :: cache_storage where
  "old_and_new =
     [(''cc-cache-v4'', [(key_of_url ''/Home.html'', page_response 200 ''old home'')]),
      (''cc-cache-v5'', [(key_of_url ''/Home.html'', page_response 200 ''home'')]),
      (''cc-api-cache-v5'', [])]"


definition json_response :: "nat \<Rightarrow> json \<Rightarrow> sw_response" where
  "json_response n v =
     \<lparr> rs_status = n, rs_headers = [(''Content-Type'', ''application/json'')],
       rs_body = BodyJson v \<rparr>"

definition api_cached :: cache_storage where
  "api_cached =
     [(''cc-cache-v5'', [(key_of_url ''/Home.html'', page_response 200 ''home'')]),
      (''cc-api-cache-v5'',
       [(key_of_request reports_request, json_response 200 (JArr [JNum 1]))])]"

text \<open>
  The request that changes the status of a report, as the worker sees it, and an ok
  response whose \<^verbatim>\<open>Vary\<close> header lists \<^verbatim>\<open>*\<close>.
\<close>

definition estado_request :: sw_request where
  "estado_request =
     \<lparr> rq_method = ''PUT'',
       rq_href = ''https://ciudad-conectada.onrender.com/api/Reports/42/estado'',
       rq_pathname = ''/api/Reports/42/estado'' \<rparr>"

definition varying_response :: sw_response where
  "varying_response =
     \<lparr> rs_status = 200,
       rs_headers = [(''Content-Type'', ''application/json''), (''Vary'', ''Accept, *'')],
       rs_body = BodyJson (JArr []) \<rparr>"

section \<open>Properties of the drain\<close>

lemma replay_request_showMessage: "replay_request (showMessage t d p) a = replay_request p a"
  by (simp add: replay_request_def showMessage_def getItem_authToken_def)

lemma isl_attempt: "isl (attempt a out) = replay_failed out"
  by (cases out) (auto simp: attempt_def replay_failed_def)

lemma attempt_cases:
  "attempt a out =
     (if replay_failed out
      then Inl (case out of Unreachable \<Rightarrow> FetchRejected
                | Responded r \<Rightarrow> SyncFailed (template (get_prop a ''id'')))
      else Inr ())"
  by (cases out) (auto simp: attempt_def replay_failed_def)

text \<open>The loop adds to its accumulator the actions of the trace whose replay failed.\<close>

lemma replay_loop_trace:
  "fst (replay_loop net p q failed ws) =
     failed @ map fst (filter (\<lambda>(a, out). replay_failed out) (replay_trace net p q ws))"
proof (induction q arbitrary: failed ws)
  case Nil
  show ?case by simp
next
  case (Cons a q)
  obtain out ws' where f: "do_fetch net (replay_request p a) ws = (out, ws')"
    by (cases "do_fetch net (replay_request p a) ws")
  show ?case
    by (cases "replay_failed out") (simp_all add: f attempt_cases Cons.IH)
qed

lemma replay_loop_cong:
  "(\<And>a. replay_request p a = replay_request p' a) \<Longrightarrow>
   replay_loop net p q failed ws = replay_loop net p' q failed ws"
  by (induction q arbitrary: failed ws) (simp_all split: prod.splits sum.splits)

lemma replay_trace_actions: "map fst (replay_trace net p q ws) = q"
  by (induction q arbitrary: ws) (simp_all split: prod.splits)

lemma read_queue_setItem: "read_queue (setItem_syncQueue q p) = q"
  by (simp add: read_queue_def setItem_syncQueue_def)

lemma read_queue_showMessage: "read_queue (showMessage t d p) = read_queue p"
  by (simp add: read_queue_def showMessage_def)

lemma processSyncQueue_queue:
  "read_queue (fst (processSyncQueue net p ws)) =
     map fst (filter (\<lambda>(a, out). replay_failed out) (replay_trace net p (read_queue p) ws))"
proof (cases "read_queue p = []")
  case True
  then show ?thesis by (simp add: processSyncQueue_def)
next
  case False
  have c: "replay_loop net (showMessage ToastSyncing 3000 p) (read_queue p) [] ws
           = replay_loop net p (read_queue p) [] ws"
    by (rule replay_loop_cong) (rule replay_request_showMessage)
  obtain failed ws' where l: "replay_loop net p (read_queue p) [] ws = (failed, ws')"
    by (cases "replay_loop net p (read_queue p) [] ws")
  have "failed =
      map fst (filter (\<lambda>(a, out). replay_failed out) (replay_trace net p (read_queue p) ws))"
    using replay_loop_trace [of net p "read_queue p" "[]" ws] l by simp
  then show ?thesis
    using False
    by (simp add: processSyncQueue_def write_back_def Let_def c l read_queue_setItem
        read_queue_showMessage)
qed

lemma status_reply: "status (reply n) = n"
  by (simp add: reply_def)

lemma three_queued_queue:
  "read_queue three_queued =
     [(''id'', JNum 1700000000100) # status_action,
      (''id'', JNum 1700000000200) # progress_action,
      (''id'', JNum 1700000000300) # status_action]"
  by code_simp

lemma three_queued_trace:
  "replay_trace scripted three_queued (read_queue three_queued)
       ([Responded (reply 400), Responded (reply 200), Unreachable], []) =
     [((''id'', JNum 1700000000100) # status_action, Responded (reply 400)),
      ((''id'', JNum 1700000000200) # progress_action, Responded (reply 200)),
      ((''id'', JNum 1700000000300) # status_action, Unreachable)]"
  by code_simp

text \<open>
  C1. One drain replays every action of the persisted queue once, in the order of the
  queue, and the queue persisted afterwards is the list of the actions whose replay
  failed, each the very record that was read (its id with it), in their order in the
  queue. The replay of an action fails, and the \<^verbatim>\<open>catch\<close> block keeps the action,
  exactly when no response came or the response is not ok: a status 400 and an
  unreachable network are kept alike.
\<close>

theorem drain_retains_failed_actions:
  "map fst (replay_trace net p (read_queue p) ws) = read_queue p \<and>
   read_queue (fst (processSyncQueue net p ws)) =
     map fst (filter (\<lambda>(a, out). replay_failed out) (replay_trace net p (read_queue p) ws)) \<and>
   isl (attempt a out) = replay_failed out"
  by (simp add: replay_trace_actions processSyncQueue_queue isl_attempt)

theorem drain_retains_failed_actions_witness:
  "read_queue (fst (processSyncQueue scripted three_queued
       ([Responded (reply 400), Responded (reply 200), Unreachable], []))) =
     [(''id'', JNum 1700000000100) # status_action,
      (''id'', JNum 1700000000300) # status_action]"
  using drain_retains_failed_actions [of scripted three_queued
      "([Responded (reply 400), Responded (reply 200), Unreachable], [])" "[]" Unreachable]
  by (simp add: three_queued_trace replay_failed_def ok_def status_reply)

lemma succeeded_not_failed: "succeeded out = (\<not> replay_failed out)"
  by (cases out) (simp_all add: succeeded_def replay_failed_def)

lemma one_queued_trace:
  "replay_trace scripted (enqueue_all [(1700000000100, status_action)] signed_in)
     (read_queue (enqueue_all [(1700000000100, status_action)] signed_in))
     ([Responded (reply 200)], []) =
   [((''id'', JNum 1700000000100) # status_action, Responded (reply 200))]"
  by code_simp

text \<open>
  C2. After any sequence of enqueue calls, a drain in which every replayed action
  receives an ok response leaves the persisted queue empty.
\<close>

theorem drain_all_ok_empties_queue:
  assumes "list_all (\<lambda>(a, out). succeeded out)
             (replay_trace net (enqueue_all calls p) (read_queue (enqueue_all calls p)) ws)"
  shows "read_queue (fst (processSyncQueue net (enqueue_all calls p) ws)) = []"
proof -
  have "filter (\<lambda>(a, out). replay_failed out)
          (replay_trace net (enqueue_all calls p) (read_queue (enqueue_all calls p)) ws) = []"
    using assms by (auto simp: list_all_iff filter_empty_conv succeeded_not_failed)
  then show ?thesis by (simp add: processSyncQueue_queue)
qed

theorem drain_all_ok_empties_queue_witness:
  "read_queue (enqueue_all [(1700000000100, status_action)] signed_in) =
     [(''id'', JNum 1700000000100) # status_action] \<and>
   read_queue (fst (processSyncQueue scripted
      (enqueue_all [(1700000000100, status_action)] signed_in) ([Responded (reply 200)], []))) = []"
proof
  show "read_queue (enqueue_all [(1700000000100, status_action)] signed_in) =
     [(''id'', JNum 1700000000100) # status_action]"
    by code_simp
  show "read_queue (fst (processSyncQueue scripted
      (enqueue_all [(1700000000100, status_action)] signed_in) ([Responded (reply 200)], []))) = []"
    by (rule drain_all_ok_empties_queue)
       (simp add: one_queued_trace succeeded_def ok_def status_reply)
qed

section \<open>The drain step by step\<close>

lemma drain_run_Returned: "drain_run net n (Returned, p, ws) = (Returned, p, ws)"
  by (induction n) (simp_all add: drain_step_def)

lemma drain_run_InLoop_page:
  "drain_run net n (InLoop rest failed, p1, ws1) = (pc, p', ws') \<Longrightarrow> pc \<noteq> Returned \<Longrightarrow> p' = p1"
proof (induction n arbitrary: rest failed ws1)
  case 0
  then show ?case by simp
next
  case (Suc n)
  show ?case
  proof (cases rest)
    case Nil
    with Suc.prems show ?thesis
      by (simp add: drain_step_def drain_run_Returned)
  next
    case (Cons a rest')
    obtain out ws2 where f: "do_fetch net (replay_request p1 a) ws1 = (out, ws2)"
      by (cases "do_fetch net (replay_request p1 a) ws1")
    from Suc.prems Cons f show ?thesis
      by (cases "attempt a out") (auto simp: drain_step_def dest: Suc.IH)
  qed
qed

lemma drain_run_unfinished:
  assumes "drain_run net n (AtEntry, p, ws) = (pc, p', ws')" and "pc \<noteq> Returned"
  shows "store p' = store p"
proof (cases n)
  case 0
  with assms show ?thesis by simp
next
  case (Suc m)
  show ?thesis
  proof (cases "read_queue p = []")
    case True
    with assms Suc show ?thesis
      by (simp add: drain_step_def drain_run_Returned)
  next
    case False
    with assms Suc have "drain_run net m (InLoop (read_queue p) [], showMessage ToastSyncing 3000 p, ws) = (pc, p', ws')"
      by (simp add: drain_step_def)
    from drain_run_InLoop_page [OF this assms(2)] show ?thesis
      by (simp add: showMessage_def)
  qed
qed

lemma drain_run_loop:
  "drain_run net (Suc (length rest)) (InLoop rest failed, p1, ws1) =
     (case replay_loop net p1 rest failed ws1 of
        (failed', ws') \<Rightarrow> (Returned, write_back failed' p1, ws'))"
proof (induction rest arbitrary: failed ws1)
  case Nil
  show ?case by (simp add: drain_step_def)
next
  case (Cons a rest)
  obtain out ws2 where f: "do_fetch net (replay_request p1 a) ws1 = (out, ws2)"
    by (cases "do_fetch net (replay_request p1 a) ws1")
  show ?case
    using Cons.IH
    by (cases "attempt a out") (simp_all add: drain_step_def f del: drain_run.simps(2) add: drain_run.simps(2) [of _ "Suc _"])
qed

lemma drain_run_complete:
  "drain_run net (length (read_queue p) + 2) (AtEntry, p, ws) = (Returned, processSyncQueue net p ws)"
proof (cases "read_queue p = []")
  case True
  then show ?thesis
    by (simp add: numeral_2_eq_2 drain_step_def processSyncQueue_def)
next
  case False
  have "drain_run net (length (read_queue p) + 2) (AtEntry, p, ws) =
        drain_run net (Suc (length (read_queue p))) (InLoop (read_queue p) [], showMessage ToastSyncing 3000 p, ws)"
    using False by (simp add: drain_step_def)
  then show ?thesis
    using False
    by (simp only: drain_run_loop) (simp add: processSyncQueue_def Let_def split: prod.splits)
qed

lemma processSyncQueue_store:
  "read_queue p \<noteq> [] \<Longrightarrow>
   store (fst (processSyncQueue net p ws)) =
     (store p)\<lparr>syncQueue := Some (read_queue (fst (processSyncQueue net p ws))),
               writes := writes (store p) @ [''syncQueue'']\<rparr>"
  by (simp add: processSyncQueue_def write_back_def Let_def setItem_syncQueue_def showMessage_def
      read_queue_def split: prod.splits)

lemma three_queued_midway:
  "fst (drain_run scripted 2 (AtEntry, three_queued,
       ([Responded (reply 400), Responded (reply 200), Unreachable], []))) =
     InLoop [(''id'', JNum 1700000000200) # progress_action,
             (''id'', JNum 1700000000300) # status_action]
            [(''id'', JNum 1700000000100) # status_action]"
  by (simp add: numeral_2_eq_2 drain_step_def three_queued_queue do_fetch_def scripted_def
      attempt_def ok_def status_reply)

lemma three_queued_writes:
  "writes (store three_queued) = [''syncQueue'', ''syncQueue'', ''syncQueue'']"
  by code_simp

text \<open>
  C3. Every state of a drain before its return has the storage as it was at the
  start: nothing was written, the queue least of all. The drain returns after as
  many steps as the queue has actions, and two more, with the result of
  \<open>processSyncQueue\<close>. When the queue had actions, the storage at the return differs
  from the storage at the start by one write, of the actions that failed under the key
  of the queue; when it had none, the drain returns with nothing changed.
\<close>

theorem drain_writes_once_at_end:
  "(drain_run net n (AtEntry, p, ws) = (pc, p', ws') \<and> pc \<noteq> Returned \<longrightarrow> store p' = store p) \<and>
   drain_run net (length (read_queue p) + 2) (AtEntry, p, ws) =
     (Returned, processSyncQueue net p ws) \<and>
   (read_queue p \<noteq> [] \<longrightarrow>
      store (fst (processSyncQueue net p ws)) =
        (store p)\<lparr>syncQueue := Some (read_queue (fst (processSyncQueue net p ws))),
                  writes := writes (store p) @ [''syncQueue'']\<rparr>) \<and>
   (read_queue p = [] \<longrightarrow> fst (processSyncQueue net p ws) = p)"
proof (intro conjI impI)
  assume "drain_run net n (AtEntry, p, ws) = (pc, p', ws') \<and> pc \<noteq> Returned"
  then show "store p' = store p"
    using drain_run_unfinished by blast
next
  show "drain_run net (length (read_queue p) + 2) (AtEntry, p, ws) =
     (Returned, processSyncQueue net p ws)"
    by (rule drain_run_complete)
next
  assume "read_queue p \<noteq> []"
  then show "store (fst (processSyncQueue net p ws)) =
        (store p)\<lparr>syncQueue := Some (read_queue (fst (processSyncQueue net p ws))),
                  writes := writes (store p) @ [''syncQueue'']\<rparr>"
    by (rule processSyncQueue_store)
next
  assume "read_queue p = []"
  then show "fst (processSyncQueue net p ws) = p"
    by (simp add: processSyncQueue_def)
qed

lemma empty_queue_signed_in: "read_queue signed_in = []"
  by (simp add: read_queue_def signed_in_def)

theorem drain_writes_once_at_end_witness:
  "fst (drain_run scripted 2 (AtEntry, three_queued,
       ([Responded (reply 400), Responded (reply 200), Unreachable], []))) \<noteq> Returned \<and>
   store (fst (snd (drain_run scripted 2 (AtEntry, three_queued,
       ([Responded (reply 400), Responded (reply 200), Unreachable], []))))) =
     store three_queued \<and>
   read_queue three_queued \<noteq> [] \<and>
   writes (store (fst (processSyncQueue scripted three_queued
       ([Responded (reply 400), Responded (reply 200), Unreachable], [])))) =
     [''syncQueue'', ''syncQueue'', ''syncQueue'', ''syncQueue''] \<and>
   read_queue signed_in = [] \<and>
   fst (processSyncQueue scripted signed_in
       ([Responded (reply 400), Responded (reply 200), Unreachable], [])) = signed_in"
proof -
  let ?ws = "([Responded (reply 400), Responded (reply 200), Unreachable], [])
              :: response outcome list \<times> request list"
  let ?s = "drain_run scripted 2 (AtEntry, three_queued, ?ws)"
  note t = drain_writes_once_at_end [of scripted 2 three_queued ?ws "fst ?s" "fst (snd ?s)"
      "snd (snd ?s)"]
  have a: "fst ?s \<noteq> Returned" by (simp add: three_queued_midway)
  have b: "read_queue three_queued \<noteq> []" by (simp add: three_queued_queue)
  have e: "?s = (fst ?s, fst (snd ?s), snd (snd ?s))" by (simp only: prod.collapse)
  from t have "?s = (fst ?s, fst (snd ?s), snd (snd ?s)) \<and> fst ?s \<noteq> Returned \<longrightarrow>
      store (fst (snd ?s)) = store three_queued"
    by (rule conjunct1)
  with e a have c: "store (fst (snd ?s)) = store three_queued" by blast
  from t have "read_queue three_queued \<noteq> [] \<longrightarrow>
      store (fst (processSyncQueue scripted three_queued ?ws)) =
        (store three_queued)\<lparr>syncQueue :=
            Some (read_queue (fst (processSyncQueue scripted three_queued ?ws))),
          writes := writes (store three_queued) @ [''syncQueue'']\<rparr>"
    by blast
  with b have "store (fst (processSyncQueue scripted three_queued ?ws)) =
        (store three_queued)\<lparr>syncQueue :=
            Some (read_queue (fst (processSyncQueue scripted three_queued ?ws))),
          writes := writes (store three_queued) @ [''syncQueue'']\<rparr>"
    by blast
  then have "writes (store (fst (processSyncQueue scripted three_queued ?ws))) =
      writes (store three_queued) @ [''syncQueue'']"
    by simp
  then have d: "writes (store (fst (processSyncQueue scripted three_queued ?ws))) =
      [''syncQueue'', ''syncQueue'', ''syncQueue'', ''syncQueue'']"
    by (simp add: three_queued_writes)
  have f: "read_queue signed_in = []" by (rule empty_queue_signed_in)
  from drain_writes_once_at_end [of scripted 0 signed_in ?ws AtEntry signed_in ?ws] f
  have g: "fst (processSyncQueue scripted signed_in ?ws) = signed_in" by blast
  from a b c d f g show ?thesis by blast
qed

section \<open>Properties of enqueueSyncAction\<close>

lemma map_of_fold_update_notin:
  "k \<notin> fst ` set props \<Longrightarrow>
   map_of (fold (\<lambda>(k, v). AList.update k v) props base) k = map_of base k"
  by (induction props arbitrary: base) (auto simp: update_conv')

lemma map_of_fold_update_distinct:
  "distinct (map fst props) \<Longrightarrow>
   map_of (fold (\<lambda>(k, v). AList.update k v) props base) = map_of base ++ map_of props"
proof (induction props arbitrary: base)
  case Nil
  show ?case by simp
next
  case (Cons kv props)
  obtain k v where kv: "kv = (k, v)" by (cases kv)
  from Cons.prems kv have nin: "k \<notin> fst ` set props" and d: "distinct (map fst props)"
    by auto
  from nin have h: "map_of props k = None" by (simp add: map_of_eq_None_iff)
  have "map_of (fold (\<lambda>(k, v). AList.update k v) (kv # props) base) =
        map_of (fold (\<lambda>(k, v). AList.update k v) props (AList.update k v base))"
    by (simp add: kv)
  also have "\<dots> = map_of (AList.update k v base) ++ map_of props"
    by (rule Cons.IH [OF d])
  also have "\<dots> = map_of base ++ map_of (kv # props)"
    by (rule ext) (simp add: update_conv' kv map_add_def h split: option.splits)
  finally show ?case .
qed

lemma get_prop_spread_id:
  "get_prop action ''id'' = None \<Longrightarrow>
   get_prop (spread [(''id'', v)] action) ''id'' = Some v"
  by (simp add: get_prop_def spread_def map_of_fold_update_notin map_of_eq_None_iff)

lemma read_queue_enqueue:
  "read_queue (enqueueSyncAction now action p) =
     read_queue p @ [spread [(''id'', JNum now)] action]"
  by (simp add: enqueueSyncAction_def Let_def registerBackgroundSync_def read_queue_def
      showMessage_def setItem_syncQueue_def)

text \<open>
  C4, as amended. An enqueue call appends the record \<^verbatim>\<open>{ id: Date.now(), ...action }\<close>
  to the end of the persisted queue and persists the queue at once. The record has
  the properties of the action and, when the action has no id of its own, the reading
  of the clock as its id; so two calls whose actions have no id give different ids
  when their readings of the clock differ.
\<close>

theorem enqueue_appends_timestamped:
  "read_queue (enqueueSyncAction now action p) =
     read_queue p @ [spread [(''id'', JNum now)] action] \<and>
   syncQueue (store (enqueueSyncAction now action p)) =
     Some (read_queue p @ [spread [(''id'', JNum now)] action]) \<and>
   (distinct (map fst action) \<longrightarrow>
      get_prop (spread [(''id'', JNum now)] action) k =
        (case get_prop action k of
           Some v \<Rightarrow> Some v
         | None \<Rightarrow> if k = ''id'' then Some (JNum now) else None)) \<and>
   (get_prop action ''id'' = None \<longrightarrow>
      get_prop (spread [(''id'', JNum now)] action) ''id'' = Some (JNum now)) \<and>
   (get_prop action ''id'' = None \<and> get_prop action' ''id'' = None \<and> now \<noteq> now' \<longrightarrow>
      get_prop (spread [(''id'', JNum now)] action) ''id'' \<noteq>
      get_prop (spread [(''id'', JNum now')] action') ''id'')"
proof (intro conjI impI)
  show "read_queue (enqueueSyncAction now action p) =
     read_queue p @ [spread [(''id'', JNum now)] action]"
    by (rule read_queue_enqueue)
next
  show "syncQueue (store (enqueueSyncAction now action p)) =
     Some (read_queue p @ [spread [(''id'', JNum now)] action])"
    by (simp add: enqueueSyncAction_def Let_def registerBackgroundSync_def read_queue_def
      showMessage_def setItem_syncQueue_def)
next
  assume "distinct (map fst action)"
  then show "get_prop (spread [(''id'', JNum now)] action) k =
        (case get_prop action k of
           Some v \<Rightarrow> Some v
         | None \<Rightarrow> if k = ''id'' then Some (JNum now) else None)"
    by (simp add: get_prop_def spread_def map_of_fold_update_distinct map_add_def
        split: option.splits)
next
  assume "get_prop action ''id'' = None"
  then show "get_prop (spread [(''id'', JNum now)] action) ''id'' = Some (JNum now)"
    by (rule get_prop_spread_id)
next
  assume "get_prop action ''id'' = None \<and> get_prop action' ''id'' = None \<and> now \<noteq> now'"
  then show "get_prop (spread [(''id'', JNum now)] action) ''id'' \<noteq>
      get_prop (spread [(''id'', JNum now')] action') ''id''"
    by (simp add: get_prop_spread_id)
qed

theorem enqueue_appends_timestamped_witness:
  "get_prop status_action ''id'' = None \<and> get_prop progress_action ''id'' = None \<and>
   distinct (map fst status_action) \<and>
   get_prop (spread [(''id'', JNum 1700000000100)] status_action) ''url'' =
     Some (JStr ''/Reports/42/estado'') \<and>
   get_prop (spread [(''id'', JNum 1700000000100)] status_action) ''id'' \<noteq>
   get_prop (spread [(''id'', JNum 1700000000200)] progress_action) ''id''"
proof -
  have a: "get_prop status_action ''id'' = None" by code_simp
  have b: "get_prop progress_action ''id'' = None" by code_simp
  have c: "distinct (map fst status_action)" by code_simp
  have d: "get_prop status_action ''url'' = Some (JStr ''/Reports/42/estado'')" by code_simp
  note t = enqueue_appends_timestamped [of 1700000000100 status_action signed_in "''url''"
      progress_action 1700000000200]
  from t c have "get_prop (spread [(''id'', JNum 1700000000100)] status_action) ''url'' =
      (case get_prop status_action ''url'' of
         Some v \<Rightarrow> Some v
       | None \<Rightarrow> if ''url'' = ''id'' then Some (JNum 1700000000100) else None)"
    by blast
  then have e: "get_prop (spread [(''id'', JNum 1700000000100)] status_action) ''url'' =
     Some (JStr ''/Reports/42/estado'')"
    by (simp add: d)
  have g: "(1700000000100 :: int) \<noteq> 1700000000200" by simp
  from t a b g have f:
    "get_prop (spread [(''id'', JNum 1700000000100)] status_action) ''id'' \<noteq>
     get_prop (spread [(''id'', JNum 1700000000200)] progress_action) ''id''"
    by blast
  from a b c e f show ?thesis by blast
qed

text \<open>
  Two enqueue calls at the same reading of the clock, as two calls within one
  millisecond are, give the two records the same id.
\<close>

theorem enqueue_same_clock_counterexample:
  "read_queue (enqueueSyncAction 1700000000100 progress_action
      (enqueueSyncAction 1700000000100 status_action signed_in)) =
     [(''id'', JNum 1700000000100) # status_action,
      (''id'', JNum 1700000000100) # progress_action]"
  by code_simp

section \<open>Properties of the API client\<close>

text \<open>Without headers in the options, the request carries the defaults.\<close>

lemma apiCall_config_default_headers:
  "opt_headers opts = None \<Longrightarrow>
   req_headers (apiCall_config p endpoint opts) =
     (''Content-Type'', ''application/json'') #
     (if token_set (authToken (store p))
      then [(''Authorization'', ''Bearer '' @ the (authToken (store p)))] else [])"
  by (simp add: apiCall_config_def merged_headers_def spread_def getItem_authToken_def)

lemma apiCall_requests:
  "snd (snd (snd (apiCall net endpoint opts p ws))) = snd ws @ [apiCall_config p endpoint opts]"
  by (auto simp: apiCall_def do_fetch_def apiCall_catch_def Let_def
      split: prod.splits outcome.splits option.splits)

text \<open>
  C5. The claim is that every call carries the \<^verbatim>\<open>Content-Type\<close> header and, with
  a token stored, the \<^verbatim>\<open>Authorization\<close> header, whatever headers the caller gives.
  The code does not keep it: with a token stored, a call whose options have a
  \<^verbatim>\<open>headers\<close> property sends exactly the caller's headers, since the spread of the
  options over the \<^verbatim>\<open>config\<close> literal replaces the merged headers, and neither
  default reaches the network.
\<close>

theorem apiCall_caller_headers_replace_defaults:
  "authToken (store signed_in) = Some ''abc123'' \<and>
   map req_headers (snd (snd (snd (apiCall scripted ''/Reports'' extra_header_options signed_in
       ([Responded (reply 200)], []))))) =
     [[(''Accept'', ''application/json'')]]"
  by (simp add: apiCall_requests apiCall_config_def extra_header_options_def signed_in_def)

lemma show_nat_401: "show_nat 401 = ''401''"
  by code_simp

lemma not_ok_401: "status r = 401 \<Longrightarrow> \<not> ok r"
  by (simp add: ok_def)

text \<open>
  C6. Whatever the endpoint and the options, when the network answers a call with the
  status 401, the call fails with the error whose message carries the status and the
  text of the body, and the page it leaves has no token and no user, in the storage
  and in memory, and is sent to the login page; the queue is not touched.
\<close>

theorem apiCall_401_clears_session:
  assumes "net (apiCall_config p endpoint opts) (fst ws) = (Responded r, w')"
    and "status r = 401"
  shows "\<exists>p'. apiCall net endpoint opts p ws =
           (Inl (Error (''Error en la API: 401 '' @ body_text r)), p',
            (w', snd ws @ [apiCall_config p endpoint opts])) \<and>
         authToken (store p') = None \<and> currentUser (store p') = None \<and> user p' = None \<and>
         location p' = ''Login.html'' \<and> syncQueue (store p') = syncQueue (store p)"
proof -
  have "apiCall net endpoint opts p ws =
          (Inl (Error (''Error en la API: 401 '' @ body_text r)),
           showMessage ToastConnectionError 5000 (logout p),
           (w', snd ws @ [apiCall_config p endpoint opts]))"
    using assms
    by (simp add: apiCall_def do_fetch_def not_ok_401 apiCall_catch_def show_nat_401)
  moreover have "authToken (store (showMessage ToastConnectionError 5000 (logout p))) = None"
    "currentUser (store (showMessage ToastConnectionError 5000 (logout p))) = None"
    "user (showMessage ToastConnectionError 5000 (logout p)) = None"
    "location (showMessage ToastConnectionError 5000 (logout p)) = ''Login.html''"
    "syncQueue (store (showMessage ToastConnectionError 5000 (logout p))) = syncQueue (store p)"
    by (simp_all add: showMessage_def logout_def removeItem_authToken_def
        removeItem_currentUser_def Let_def)
  ultimately show ?thesis by blast
qed

theorem apiCall_401_clears_session_witness:
  "fst (apiCall scripted ''/Reports'' no_options signed_in ([Responded unauthorized], [])) =
     Inl (Error ''Error en la API: 401 Token expirado'') \<and>
   authToken (store (fst (snd (apiCall scripted ''/Reports'' no_options signed_in
     ([Responded unauthorized], []))))) = None \<and>
   currentUser (store (fst (snd (apiCall scripted ''/Reports'' no_options signed_in
     ([Responded unauthorized], []))))) = None"
proof -
  have a: "scripted (apiCall_config signed_in ''/Reports'' no_options)
             (fst ([Responded unauthorized], [] :: request list)) = (Responded unauthorized, [])"
    by (simp add: scripted_def)
  have b: "status unauthorized = 401" by (simp add: unauthorized_def)
  have c: "body_text unauthorized = ''Token expirado''" by (simp add: unauthorized_def)
  from apiCall_401_clears_session [of scripted signed_in "''/Reports''" no_options
      "([Responded unauthorized], [])" unauthorized "[]", OF a b] c
  show ?thesis by auto
qed

section \<open>Properties of the service worker\<close>

text \<open>
  With no network and no cached response, the body of the answer to an API request is
  not the object with the three properties \<^verbatim>\<open>ok\<close>, \<^verbatim>\<open>offline\<close> and
  \<^verbatim>\<open>data\<close> alone.
\<close>

theorem offline_body_counterexample:
  "rs_body (fst (apiNetworkThenCache scripted [] ([], []) reports_request)) \<noteq>
     BodyJson (JObj [(''ok'', JBool True), (''offline'', JBool True), (''data'', JArr [])])"
  by (simp add: apiNetworkThenCache_def do_fetch_def scripted_def offline_response_def)

lemma reports_not_static: "rq_pathname reports_request \<notin> set STATIC_ASSETS"
  by (simp add: reports_request_def STATIC_ASSETS_def)

lemma reports_is_api: "prefix API_BASE (rq_href reports_request)"
  by (simp add: reports_request_def API_BASE_def)

text \<open>
  C7, as amended. For an API request intercepted while the network is unreachable and
  no cache holds a response for it, the answer is a response of status 200 whose body
  is the JSON text of \<^verbatim>\<open>{ok: true, offline: true, message: "Datos cargados offline", data: []}\<close>.
\<close>

theorem offline_api_placeholder:
  assumes "rq_pathname request \<notin> set STATIC_ASSETS"
    and "prefix API_BASE (rq_href request)"
    and "net request (fst ws) = (Unreachable, w')"
    and "caches_match cs (key_of_request request) = None"
  shows "\<exists>res. fetch_handler net cs ws request = (Some res, cs, (w', snd ws @ [request])) \<and>
     rs_body res = BodyJson (JObj
       [(''ok'', JBool True), (''offline'', JBool True),
        (''message'', JStr ''Datos cargados offline''), (''data'', JArr [])]) \<and>
     rs_status res = 200 \<and> rs_headers res = [(''Content-Type'', ''application/json'')]"
  using assms
  by (simp add: fetch_handler_def apiNetworkThenCache_def do_fetch_def offline_response_def)

theorem offline_api_placeholder_witness:
  "rs_body (the (fst (fetch_handler scripted [] ([], []) reports_request))) =
     BodyJson (JObj
       [(''ok'', JBool True), (''offline'', JBool True),
        (''message'', JStr ''Datos cargados offline''), (''data'', JArr [])])"
proof -
  have a: "scripted reports_request (fst ([] :: sw_response outcome list, [] :: sw_request list))
      = (Unreachable, [])"
    by (simp add: scripted_def)
  have b: "caches_match [] (key_of_request reports_request) = None" by simp
  from offline_api_placeholder [of reports_request scripted "([], [])" "[]" "[]",
      OF reports_not_static reports_is_api a b]
  show ?thesis by auto
qed

lemma fold_caches_delete:
  "fold caches_delete names cs = filter (\<lambda>(n, c). n \<notin> set names) cs"
proof (induction names arbitrary: cs)
  case Nil
  show ?case by simp
next
  case (Cons a names)
  have "fold caches_delete (a # names) cs = fold caches_delete names (caches_delete a cs)"
    by simp
  also have "\<dots> = filter (\<lambda>(n, c). n \<notin> set names) (caches_delete a cs)"
    by (rule Cons.IH)
  also have "\<dots> = filter (\<lambda>(n, c). n \<notin> set (a # names)) cs"
    by (auto simp: caches_delete_def intro!: filter_cong)
  finally show ?case .
qed

lemma activate_keeps:
  "caches (activate sw) = filter (\<lambda>(n, c). n = CACHE_NAME \<or> n = API_CACHE) (caches sw)"
proof -
  have "filter (\<lambda>(n, c). n \<notin> set (filter (\<lambda>key. key \<noteq> CACHE_NAME \<and> key \<noteq> API_CACHE)
                                  (map fst (caches sw)))) (caches sw) =
        filter (\<lambda>(n, c). n = CACHE_NAME \<or> n = API_CACHE) (caches sw)"
    by (rule filter_cong [OF refl]) force
  then show ?thesis
    by (simp add: activate_def Let_def caches_keys_def fold_caches_delete)
qed

lemma length_filter_two:
  "distinct (map fst cs) \<Longrightarrow> length (filter (\<lambda>(n, c). n = a \<or> n = b) cs) \<le> 2"
proof -
  assume d: "distinct (map fst cs)"
  have "distinct (map fst (filter (\<lambda>(n, c). n = a \<or> n = b) cs))"
    using d by (simp add: distinct_map_filter)
  moreover have "set (map fst (filter (\<lambda>(n, c). n = a \<or> n = b) cs)) \<subseteq> {a, b}"
    by auto
  ultimately have "length (map fst (filter (\<lambda>(n, c). n = a \<or> n = b) cs)) \<le> card {a, b}"
    by (metis card_mono distinct_card finite.emptyI finite.insertI)
  also have "card {a, b} \<le> 2" by (simp add: card_insert_if)
  finally show ?thesis by simp
qed

text \<open>
  C8. An activation keeps the caches named as the current static generation or the
  current API generation, as they are and in their order, and deletes every other
  cache: afterwards the names of the caches are among those two, and with the names
  of the storage distinct at most two caches exist. The clients are claimed.
\<close>

theorem activate_deletes_other_generations:
  "set (caches_keys (caches (activate sw))) \<subseteq> {CACHE_NAME, API_CACHE} \<and>
   caches (activate sw) = filter (\<lambda>(n, c). n = CACHE_NAME \<or> n = API_CACHE) (caches sw) \<and>
   (distinct (caches_keys (caches sw)) \<longrightarrow> length (caches (activate sw)) \<le> 2) \<and>
   claimed (activate sw)"
proof (intro conjI impI)
  show "set (caches_keys (caches (activate sw))) \<subseteq> {CACHE_NAME, API_CACHE}"
    by (auto simp: activate_keeps caches_keys_def)
  show "caches (activate sw) = filter (\<lambda>(n, c). n = CACHE_NAME \<or> n = API_CACHE) (caches sw)"
    by (rule activate_keeps)
  show "claimed (activate sw)" by (simp add: activate_def Let_def)
next
  assume "distinct (caches_keys (caches sw))"
  then show "length (caches (activate sw)) \<le> 2"
    by (simp add: activate_keeps caches_keys_def length_filter_two)
qed

theorem activate_deletes_other_generations_witness:
  "distinct (caches_keys old_and_new) \<and>
   caches_keys (caches (activate \<lparr> caches = old_and_new, claimed = False \<rparr>)) =
     [''cc-cache-v5'', ''cc-api-cache-v5'']"
proof -
  have a: "distinct (caches_keys old_and_new)" by code_simp
  have "caches (activate \<lparr> caches = old_and_new, claimed = False \<rparr>) =
      filter (\<lambda>(n, c). n = CACHE_NAME \<or> n = API_CACHE) old_and_new"
    using activate_deletes_other_generations [of "\<lparr> caches = old_and_new, claimed = False \<rparr>"]
    by simp
  then have "caches_keys (caches (activate \<lparr> caches = old_and_new, claimed = False \<rparr>)) =
     [''cc-cache-v5'', ''cc-api-cache-v5'']"
    by (simp add: old_and_new_def CACHE_NAME_def API_CACHE_def caches_keys_def)
  with a show ?thesis by blast
qed









lemma stored_open: "stored (caches_open name cs) n k = stored cs n k"
  by (auto simp: stored_def caches_open_def map_add_def cache_match_def split: option.splits)

lemma stored_put_in:
  "\<not> put_rejects request r \<Longrightarrow>
   stored (put_in name request r (caches_open name cs)) name (key_of_request request) = Some r"
  by (auto simp: stored_def put_in_def caches_open_def map_of_map_entry cache_put_def
      cache_match_def update_conv' map_add_def split: option.splits)

lemma put_in_rejected: "put_rejects request r \<Longrightarrow> put_in name request r cs = cs"
proof -
  assume "put_rejects request r"
  then have "put_in name request r cs = AList.map_entry name (\<lambda>c. c) cs"
    by (simp add: put_in_def cache_put_def)
  also have "\<dots> = cs" by (induction cs) auto
  finally show ?thesis .
qed

lemma set_update_subset: "set (AList.update k v al) \<subseteq> insert (k, v) (set al)"
  by (induction al) auto

lemma only_ok_update:
  "list_all (\<lambda>(k, r). rs_ok r) c \<Longrightarrow> rs_ok r \<Longrightarrow>
   list_all (\<lambda>(k, r). rs_ok r) (AList.update k r c)"
  using set_update_subset [of k r c] by (auto simp: list_all_iff)

lemma only_ok_put_in:
  "only_ok_cached cs \<Longrightarrow> rs_ok r \<Longrightarrow> only_ok_cached (put_in name request r cs)"
  by (induction cs) (auto simp: only_ok_cached_def put_in_def cache_put_def only_ok_update)

lemma only_ok_open: "only_ok_cached cs \<Longrightarrow> only_ok_cached (caches_open name cs)"
  by (simp add: only_ok_cached_def caches_open_def split: option.splits)

lemma only_ok_match:
  "only_ok_cached cs \<Longrightarrow> caches_match cs k = Some res \<Longrightarrow> rs_ok res"
proof (induction cs)
  case Nil
  then show ?case by simp
next
  case (Cons nc cs)
  obtain n c where nc: "nc = (n, c)" by (cases nc)
  show ?case
  proof (cases "cache_match c k")
    case None
    with Cons nc show ?thesis by (simp add: only_ok_cached_def)
  next
    case (Some r)
    then have "(k, r) \<in> set c" by (simp add: cache_match_def map_of_SomeD)
    with Cons.prems nc Some show ?thesis
      by (auto simp: only_ok_cached_def list_all_iff)
  qed
qed

lemma rs_ok_offline: "rs_ok offline_response"
  by (simp add: rs_ok_def offline_response_def)

lemma reports_put_accepted: "\<not> put_rejects reports_request (json_response 200 (JArr []))"
  by code_simp

lemma estado_put_rejected: "put_rejects estado_request (json_response 200 (JObj []))"
  by (simp add: put_rejects_def estado_request_def)

lemma varying_put_rejected: "put_rejects reports_request varying_response"
  by code_simp

lemma api_cached_ok: "only_ok_cached api_cached"
  by (simp add: only_ok_cached_def api_cached_def rs_ok_def json_response_def page_response_def)

lemma api_cached_estado:
  "stored api_cached API_CACHE (key_of_request estado_request) = None"
  by (simp add: stored_def api_cached_def API_CACHE_def cache_match_def key_of_request_def
      estado_request_def reports_request_def)

lemma api_cached_open: "caches_open API_CACHE api_cached = api_cached"
  by (simp add: caches_open_def api_cached_def API_CACHE_def)

text \<open>
  The claim as it stands fails on a request that is not a GET: the ok answer to the
  request that changes the status of a report is returned, and the API cache has no
  entry for the request afterwards.
\<close>

theorem ok_put_answer_not_stored_counterexample:
  "rs_ok (json_response 200 (JObj [])) \<and>
   fst (apiNetworkThenCache scripted api_cached ([Responded (json_response 200 (JObj []))], [])
       estado_request) = json_response 200 (JObj []) \<and>
   stored (fst (snd (apiNetworkThenCache scripted api_cached
       ([Responded (json_response 200 (JObj []))], []) estado_request)))
     API_CACHE (key_of_request estado_request) = None"
proof -
  have a: "rs_ok (json_response 200 (JObj []))"
    by (simp add: rs_ok_def json_response_def)
  have "apiNetworkThenCache scripted api_cached ([Responded (json_response 200 (JObj []))], [])
       estado_request =
     (json_response 200 (JObj []), api_cached, ([], [estado_request]))"
    by (simp add: apiNetworkThenCache_def do_fetch_def scripted_def a
        put_in_rejected [OF estado_put_rejected] api_cached_open)
  with a show ?thesis by (simp add: api_cached_estado)
qed

text \<open>
  C10, as amended. \<open>apiNetworkThenCache\<close> stores the response of the network only when
  it is ok, and it does store an ok response that \<^verbatim>\<open>cache.put\<close> accepts: the
  response is returned and is then the entry of the API cache for the request. An ok
  response that \<^verbatim>\<open>cache.put\<close> rejects is returned too, and the API cache, opened by
  then, has the entries that it had. A response that is not ok is returned as it is
  and the caches stay as they were, the entry cached before included; with no network
  the caches stay as they were. So a storage whose cached responses are all ok remains
  one, and the answer given without network, cached or synthesized, is an ok response.
\<close>

theorem api_cache_holds_only_ok_responses:
  "(net request (fst ws) = (Responded r, w') \<and> rs_ok r \<and> \<not> put_rejects request r \<longrightarrow>
      (\<exists>cs'. apiNetworkThenCache net cs ws request = (r, cs', (w', snd ws @ [request])) \<and>
             stored cs' API_CACHE (key_of_request request) = Some r)) \<and>
   (net request (fst ws) = (Responded r, w') \<and> rs_ok r \<and> put_rejects request r \<longrightarrow>
      apiNetworkThenCache net cs ws request =
        (r, caches_open API_CACHE cs, (w', snd ws @ [request])) \<and>
      stored (caches_open API_CACHE cs) name k = stored cs name k) \<and>
   (net request (fst ws) = (Responded r, w') \<and> \<not> rs_ok r \<longrightarrow>
      apiNetworkThenCache net cs ws request = (r, cs, (w', snd ws @ [request]))) \<and>
   (net request (fst ws) = (Unreachable, w') \<longrightarrow>
      (\<exists>res. apiNetworkThenCache net cs ws request = (res, cs, (w', snd ws @ [request])) \<and>
             (only_ok_cached cs \<longrightarrow> rs_ok res))) \<and>
   (only_ok_cached cs \<longrightarrow>
      only_ok_cached (fst (snd (apiNetworkThenCache net cs ws request))))"
proof (intro conjI impI)
  assume "net request (fst ws) = (Responded r, w') \<and> rs_ok r \<and> \<not> put_rejects request r"
  then show "\<exists>cs'. apiNetworkThenCache net cs ws request = (r, cs', (w', snd ws @ [request])) \<and>
             stored cs' API_CACHE (key_of_request request) = Some r"
    by (simp add: apiNetworkThenCache_def do_fetch_def stored_put_in)
next
  assume "net request (fst ws) = (Responded r, w') \<and> rs_ok r \<and> put_rejects request r"
  then show "apiNetworkThenCache net cs ws request =
        (r, caches_open API_CACHE cs, (w', snd ws @ [request]))"
    by (simp add: apiNetworkThenCache_def do_fetch_def put_in_rejected)
next
  show "stored (caches_open API_CACHE cs) name k = stored cs name k"
    by (rule stored_open)
next
  assume "net request (fst ws) = (Responded r, w') \<and> \<not> rs_ok r"
  then show "apiNetworkThenCache net cs ws request = (r, cs, (w', snd ws @ [request]))"
    by (simp add: apiNetworkThenCache_def do_fetch_def)
next
  assume "net request (fst ws) = (Unreachable, w')"
  then show "\<exists>res. apiNetworkThenCache net cs ws request = (res, cs, (w', snd ws @ [request])) \<and>
             (only_ok_cached cs \<longrightarrow> rs_ok res)"
    by (auto simp: apiNetworkThenCache_def do_fetch_def rs_ok_offline only_ok_match
        split: option.splits)
next
  assume inv: "only_ok_cached cs"
  obtain out w2 where n: "net request (fst ws) = (out, w2)"
    by (cases "net request (fst ws)")
  show "only_ok_cached (fst (snd (apiNetworkThenCache net cs ws request)))"
  proof (cases out)
    case (Responded r2)
    with n inv show ?thesis
      by (simp add: apiNetworkThenCache_def do_fetch_def only_ok_put_in only_ok_open)
  next
    case Unreachable
    with n inv show ?thesis
      by (simp add: apiNetworkThenCache_def do_fetch_def split: option.splits)
  qed
qed

theorem api_cache_holds_only_ok_responses_witness:
  "apiNetworkThenCache scripted api_cached ([Responded (json_response 500 JNull)], [])
       reports_request =
     (json_response 500 JNull, api_cached, ([], [reports_request])) \<and>
   stored (fst (snd (apiNetworkThenCache scripted api_cached
       ([Responded (json_response 200 (JArr []))], []) reports_request)))
     API_CACHE (key_of_request reports_request) = Some (json_response 200 (JArr [])) \<and>
   apiNetworkThenCache scripted api_cached ([Responded varying_response], []) reports_request =
     (varying_response, api_cached, ([], [reports_request])) \<and>
   rs_ok (fst (apiNetworkThenCache scripted api_cached ([], []) reports_request)) \<and>
   only_ok_cached (fst (snd (apiNetworkThenCache scripted api_cached
       ([Responded (json_response 200 (JArr []))], []) reports_request)))"
proof -
  have bad: "\<not> rs_ok (json_response 500 JNull)"
    by (simp add: rs_ok_def json_response_def)
  have good: "rs_ok (json_response 200 (JArr []))"
    by (simp add: rs_ok_def json_response_def)
  have vgood: "rs_ok varying_response"
    by (simp add: rs_ok_def varying_response_def)
  have a: "apiNetworkThenCache scripted api_cached ([Responded (json_response 500 JNull)], [])
       reports_request =
     (json_response 500 JNull, api_cached, ([], [reports_request]))"
    using api_cache_holds_only_ok_responses [of scripted reports_request
        "([Responded (json_response 500 JNull)], [])" "json_response 500 JNull" "[]" api_cached]
      bad
    by (simp add: scripted_def)
  have b: "stored (fst (snd (apiNetworkThenCache scripted api_cached
       ([Responded (json_response 200 (JArr []))], []) reports_request)))
     API_CACHE (key_of_request reports_request) = Some (json_response 200 (JArr []))"
    using api_cache_holds_only_ok_responses [of scripted reports_request
        "([Responded (json_response 200 (JArr []))], [])" "json_response 200 (JArr [])" "[]"
        api_cached] good reports_put_accepted
    by (auto simp: scripted_def)
  have v: "apiNetworkThenCache scripted api_cached ([Responded varying_response], [])
       reports_request =
     (varying_response, api_cached, ([], [reports_request]))"
    using api_cache_holds_only_ok_responses [of scripted reports_request
        "([Responded varying_response], [])" varying_response "[]" api_cached]
      vgood varying_put_rejected
    by (simp add: scripted_def api_cached_open)
  have c: "rs_ok (fst (apiNetworkThenCache scripted api_cached ([], []) reports_request))"
    using api_cache_holds_only_ok_responses [of scripted reports_request
        "([], [])" "json_response 200 (JArr [])" "[]" api_cached] api_cached_ok
    by (auto simp: scripted_def)
  have d: "only_ok_cached (fst (snd (apiNetworkThenCache scripted api_cached
       ([Responded (json_response 200 (JArr []))], []) reports_request)))"
    using api_cache_holds_only_ok_responses [of scripted reports_request
        "([Responded (json_response 200 (JArr []))], [])" "json_response 200 (JArr [])" "[]"
        api_cached] api_cached_ok
    by blast
  from a b v c d show ?thesis by blast
qed

end
